theory Spec2Isabelle
  imports Complex_Main "HOL-Library.Sublist"
begin

section \<open>The expense tracker: data model\<close>

text \<open>
  The program is the class \<open>ExpenseTracker\<close> of \<open>src/expense_tracker.py\<close>: three SQLite
  tables and the methods that read and write them. A table is the list of its rows in
  rowid order (the order in which a scan without \<open>ORDER BY\<close> returns them). Row ids and
  user ids are integers; the columns of type \<open>REAL\<close> (Python floats) are modelled by
  \<open>real\<close>, so rounding is not part of the model; a text column is a \<open>string\<close>, one
  \<open>char\<close> standing for one character.
\<close>

record user_row =
  u_id :: int
  u_email :: string
  u_name :: string

record expense_row =
  e_id :: int
  e_user_id :: int
  e_amount :: real
  e_category :: string
  e_description :: string
  e_date :: string
  e_shared_with :: string

record budget_row =
  b_id :: int
  b_user_id :: int
  b_category :: string
  b_amount :: real
  b_month :: string
  b_alert_threshold :: real

text \<open>
  The body of an alert is an f-string over floats; the model keeps the numbers that are
  formatted into it: \<open>Spent t b\<close> is \<open>f"Spent {t} over {b}"\<close> and \<open>Remaining p\<close> is
  \<open>f"Only {p*100:.1f}% remaining"\<close>, with \<open>p\<close> the remaining fraction.
\<close>

datatype alert_body = Spent real real | Remaining real

record mail =
  m_subject :: string
  m_from :: string
  m_to :: string
  m_body :: alert_body

text \<open>
  What the program does to the world outside the database: it hands a message to the
  SMTP session, and it prints a line on the console.
\<close>

datatype io = Smtp mail | Print string

record tracker =
  users :: "user_row list"
  expenses :: "expense_row list"
  budgets :: "budget_row list"
  trace :: "io list"

text \<open>
  The exceptions that leave a method: the float division by zero of \<open>check_budget\<close>, and
  the \<open>TypeError\<close> of \<open>fetchone()[0]\<close> in \<open>send_alert\<close> when no row is returned.
\<close>

datatype error = ZeroDivisionError | TypeError

text \<open>
  \<open>datetime.now()\<close> is a parameter of the methods that read the clock. \<open>strftime\<close> pads
  the month and the day to two digits and a year from 1000 to 9999 fills four.
\<close>

record date =
  d_year :: nat
  d_month :: nat
  d_day :: nat

definition digit :: "nat \<Rightarrow> char" where
  "digit n = ''0123456789'' ! (n mod 10)"

definition pad2 :: "nat \<Rightarrow> string" where
  "pad2 n = [digit (n div 10), digit n]"

definition pad4 :: "nat \<Rightarrow> string" where
  "pad4 n = [digit (n div 1000), digit (n div 100), digit (n div 10), digit n]"

definition strftime_ym :: "date \<Rightarrow> string" where
  "strftime_ym d = pad4 (d_year d) @ ''-'' @ pad2 (d_month d)"

definition strftime_ymd :: "date \<Rightarrow> string" where
  "strftime_ymd d = pad4 (d_year d) @ ''-'' @ pad2 (d_month d) @ ''-'' @ pad2 (d_day d)"

definition valid_date :: "date \<Rightarrow> bool" where
  "valid_date d = (1000 \<le> d_year d \<and> d_year d \<le> 9999 \<and> 1 \<le> d_month d \<and> d_month d \<le> 12
     \<and> 1 \<le> d_day d \<and> d_day d \<le> 31)"

section \<open>The storage engine\<close>

text \<open>
  An insert that gives no id gets the largest rowid of the table plus one, and 1 in an
  empty table.
\<close>

definition next_rowid :: "int list \<Rightarrow> int" where
  "next_rowid ids = (case ids of [] \<Rightarrow> 1 | i # rest \<Rightarrow> fold max rest i + 1)"

text \<open>
  SQLite's \<open>LIKE\<close>: in the pattern \<open>%\<close> matches any run of characters and \<open>_\<close> any one
  character; every other character matches itself, ASCII letters without regard to case.
\<close>

definition lower :: "char \<Rightarrow> char" where
  "lower c =
     (case map_of (zip ''ABCDEFGHIJKLMNOPQRSTUVWXYZ'' ''abcdefghijklmnopqrstuvwxyz'') c of
        None \<Rightarrow> c
      | Some l \<Rightarrow> l)"

fun like :: "string \<Rightarrow> string \<Rightarrow> bool" where
  "like [] [] = True"
| "like [] (c # cs) = False"
| "like (p # ps) [] = (p = CHR ''%'' \<and> like ps [])"
| "like (p # ps) (c # cs) =
     (if p = CHR ''%'' then like ps (c # cs) \<or> like (p # ps) cs
      else if p = CHR ''_'' then like ps cs
      else lower p = lower c \<and> like ps cs)"

text \<open>
  \<open>SUM\<close> over no rows is \<open>NULL\<close> (Python's \<open>None\<close>). \<open>fetchone\<close> gives the first row of
  a result, or \<open>None\<close>. \<open>dict\<close> of a list of pairs keeps, for a key that occurs more
  than once, the value of its last occurrence.
\<close>

definition sql_sum :: "real list \<Rightarrow> real option" where
  "sql_sum xs = (if xs = [] then None else Some (sum_list xs))"

definition fetchone :: "'a list \<Rightarrow> 'a option" where
  "fetchone rows = (case rows of [] \<Rightarrow> None | r # _ \<Rightarrow> Some r)"

definition dict :: "('k \<times> 'v) list \<Rightarrow> ('k \<rightharpoonup> 'v)" where
  "dict kvs = map_of (rev kvs)"

section \<open>The methods of ExpenseTracker\<close>

text \<open>\<open>setup_database\<close> on a new file: three empty tables.\<close>

definition setup_database :: tracker where
  "setup_database = \<lparr>users = [], expenses = [], budgets = [], trace = []\<rparr>"

definition get_user_id :: "string \<Rightarrow> tracker \<Rightarrow> int option" where
  "get_user_id email s =
     (case fetchone (filter (\<lambda>u. u_email u = email) (users s)) of
        None \<Rightarrow> None
      | Some u \<Rightarrow> Some (u_id u))"

text \<open>
  \<open>add_user\<close>: the column \<open>email\<close> is \<open>UNIQUE\<close>, so the insert raises \<open>IntegrityError\<close>
  when a row with this email exists, and the handler returns \<open>get_user_id\<close>; otherwise the
  row is stored and \<open>lastrowid\<close> returned.
\<close>

definition add_user :: "string \<Rightarrow> string \<Rightarrow> tracker \<Rightarrow> int option \<times> tracker" where
  "add_user email name s =
     (if \<exists>u \<in> set (users s). u_email u = email then (get_user_id email s, s)
      else
        let lastrowid = next_rowid (map u_id (users s))
        in (Some lastrowid,
            s\<lparr>users := users s @ [\<lparr>u_id = lastrowid, u_email = email, u_name = name\<rparr>]\<rparr>))"

text \<open>
  \<open>get_monthly_spending\<close>: the pattern of the \<open>LIKE\<close> is \<open>f"{month}%"\<close>; the result is
  \<open>result or 0.0\<close>, which is \<open>0.0\<close> for \<open>None\<close> and for a sum that is zero.
\<close>

definition get_monthly_spending :: "int \<Rightarrow> string \<Rightarrow> string \<Rightarrow> tracker \<Rightarrow> real" where
  "get_monthly_spending user_id category month s =
     (let rows = filter (\<lambda>e. e_user_id e = user_id \<and> e_category e = category
                              \<and> like (month @ ''%'') (e_date e)) (expenses s)
      in case sql_sum (map e_amount rows) of
           None \<Rightarrow> 0
         | Some result \<Rightarrow> if result = 0 then 0 else result)"

text \<open>
  \<open>send_alert\<close>: \<open>fetchone()[0]\<close> raises \<open>TypeError\<close> when no user has this id. The
  parameter \<open>smtp\<close> is the mail session (connect, starttls, login, send_message):
  \<open>None\<close> when it ends without an exception, \<open>Some e\<close> with the text of the exception
  otherwise, which \<open>except Exception\<close> catches and prints.
\<close>

definition send_alert ::
  "(mail \<Rightarrow> string option) \<Rightarrow> int \<Rightarrow> string \<Rightarrow> string \<Rightarrow> alert_body \<Rightarrow> tracker
     \<Rightarrow> (error + unit) \<times> tracker" where
  "send_alert smtp user_id category subject message s =
     (case fetchone (filter (\<lambda>u. u_id u = user_id) (users s)) of
        None \<Rightarrow> (Inl TypeError, s)
      | Some u \<Rightarrow>
          let msg = \<lparr>m_subject = ''Expense Tracker: '' @ subject @ '' - '' @ category,
                     m_from = ''your_email@gmail.com'',
                     m_to = u_email u,
                     m_body = message\<rparr>
          in case smtp msg of
               None \<Rightarrow> (Inr (), s\<lparr>trace := trace s @ [Smtp msg]\<rparr>)
             | Some e \<Rightarrow>
                 (Inr (), s\<lparr>trace := trace s @ [Smtp msg, Print (''Failed to send email: '' @ e)]\<rparr>))"

text \<open>
  \<open>check_budget\<close>: \<open>now\<close> is the clock it reads. The division comes before the two tests,
  so a budget of zero raises \<open>ZeroDivisionError\<close> whatever was spent.
\<close>

definition check_budget ::
  "(mail \<Rightarrow> string option) \<Rightarrow> date \<Rightarrow> int \<Rightarrow> string \<Rightarrow> tracker \<Rightarrow> (error + unit) \<times> tracker" where
  "check_budget smtp now user_id category s =
     (let month = strftime_ym now;
          budget_data = fetchone (filter (\<lambda>b. b_user_id b = user_id \<and> b_category b = category
                                               \<and> b_month b = month) (budgets s))
      in case budget_data of
           None \<Rightarrow> (Inr (), s)
         | Some b \<Rightarrow>
             let budget = b_amount b;
                 threshold = b_alert_threshold b;
                 total_spent = get_monthly_spending user_id category month s
             in if budget = 0 then (Inl ZeroDivisionError, s)
                else
                  let remaining_percent = (budget - total_spent) / budget
                  in if total_spent > budget then
                       send_alert smtp user_id category ''Budget exceeded''
                         (Spent total_spent budget) s
                     else if remaining_percent \<le> threshold then
                       send_alert smtp user_id category ''Low budget warning''
                         (Remaining remaining_percent) s
                     else (Inr (), s))"

text \<open>
  \<open>log_expense\<close>: \<open>now\<close> is the clock read for the date of the row, \<open>now'\<close> the one read
  by \<open>check_budget\<close> afterwards. The row is committed before the check, so it stays when
  the check raises. \<open>shared_with or ''\<close> is the empty string for \<open>None\<close>.
\<close>

definition log_expense ::
  "(mail \<Rightarrow> string option) \<Rightarrow> date \<Rightarrow> date \<Rightarrow> int \<Rightarrow> real \<Rightarrow> string \<Rightarrow> string \<Rightarrow> string option
     \<Rightarrow> tracker \<Rightarrow> (error + unit) \<times> tracker" where
  "log_expense smtp now now' user_id amount category description shared_with s =
     (let date = strftime_ymd now;
          row = \<lparr>e_id = next_rowid (map e_id (expenses s)),
                 e_user_id = user_id,
                 e_amount = amount,
                 e_category = category,
                 e_description = description,
                 e_date = date,
                 e_shared_with = (case shared_with of None \<Rightarrow> [] | Some w \<Rightarrow> w)\<rparr>
      in check_budget smtp now' user_id category (s\<lparr>expenses := expenses s @ [row]\<rparr>))"

text \<open>
  \<open>set_budget\<close>: \<open>INSERT OR REPLACE\<close> deletes the rows that collide with the new one on a
  \<open>UNIQUE\<close> or \<open>PRIMARY KEY\<close> constraint, then inserts. The table \<open>budgets\<close> has one such
  constraint, the primary key \<open>id\<close>, and the statement gives no id. The default of
  \<open>alert_threshold\<close> is \<open>0.1\<close>.
\<close>

definition set_budget :: "int \<Rightarrow> string \<Rightarrow> real \<Rightarrow> string \<Rightarrow> real \<Rightarrow> tracker \<Rightarrow> tracker" where
  "set_budget user_id category amount month alert_threshold s =
     (let row = \<lparr>b_id = next_rowid (map b_id (budgets s)),
                 b_user_id = user_id,
                 b_category = category,
                 b_amount = amount,
                 b_month = month,
                 b_alert_threshold = alert_threshold\<rparr>
      in s\<lparr>budgets := filter (\<lambda>b. b_id b \<noteq> b_id row) (budgets s) @ [row]\<rparr>)"

text \<open>
  \<open>generate_report\<close>: the text of the report is a header naming the month and one line
  for each category; the model returns the month and the lines as records, the numbers
  unformatted. The loop runs over a Python set, whose order is not fixed: the model takes
  the categories in one order, without repetition, and the theorems below speak of the
  set of lines only.
\<close>

record report_line =
  r_category :: string
  r_spent :: real
  r_budget :: real
  r_status :: string

definition group_by_category :: "expense_row list \<Rightarrow> (string \<times> real) list" where
  "group_by_category rows =
     map (\<lambda>c. (c, sum_list (map e_amount (filter (\<lambda>e. e_category e = c) rows))))
       (remdups (map e_category rows))"

definition generate_report :: "int \<Rightarrow> string \<Rightarrow> tracker \<Rightarrow> string \<times> report_line list" where
  "generate_report user_id month s =
     (let expenses_rows = group_by_category
            (filter (\<lambda>e. e_user_id e = user_id \<and> like (month @ ''%'') (e_date e)) (expenses s));
          budgets_rows = map (\<lambda>b. (b_category b, b_amount b))
            (filter (\<lambda>b. b_user_id b = user_id \<and> b_month b = month) (budgets s));
          categories = remdups (map fst expenses_rows @ map fst budgets_rows)
      in (month,
          map (\<lambda>category.
                 let spent = (case dict expenses_rows category of None \<Rightarrow> 0 | Some v \<Rightarrow> v);
                     budget = (case dict budgets_rows category of None \<Rightarrow> 0 | Some v \<Rightarrow> v)
                 in \<lparr>r_category = category, r_spent = spent, r_budget = budget,
                     r_status = (if spent \<le> budget \<or> budget = 0 then ''Under'' else ''Over'')\<rparr>)
            categories))"

section \<open>Predicates used in the statements\<close>

text \<open>The characters of a date written by \<open>strftime\<close>: the digits and the dash.\<close>

definition date_char :: "char \<Rightarrow> bool" where
  "date_char c = (c \<in> set ''0123456789-'')"

text \<open>
  The messages handed to the mail session, in order, read off a trace: one for each call
  of \<open>send_alert\<close> that got as far as sending.
\<close>

fun alerts :: "io list \<Rightarrow> mail list" where
  "alerts [] = []"
| "alerts (Smtp m # tr) = m # alerts tr"
| "alerts (Print line # tr) = alerts tr"

text \<open>The message that \<open>send_alert\<close> builds for a recipient, a subject, a category and a body.\<close>

definition alert_mail :: "string \<Rightarrow> string \<Rightarrow> string \<Rightarrow> alert_body \<Rightarrow> mail" where
  "alert_mail to subject category body =
     \<lparr>m_subject = ''Expense Tracker: '' @ subject @ '' - '' @ category,
      m_from = ''your_email@gmail.com'', m_to = to, m_body = body\<rparr>"

text \<open>
  The categories a report has to show: those of the user's expenses that the query of the
  report matches, and those of the user's budgets for the month.
\<close>

definition report_categories :: "int \<Rightarrow> string \<Rightarrow> tracker \<Rightarrow> string set" where
  "report_categories u m s =
     e_category ` {e \<in> set (expenses s). e_user_id e = u \<and> like (m @ ''%'') (e_date e)}
     \<union> b_category ` {b \<in> set (budgets s). b_user_id b = u \<and> b_month b = m}"

text \<open>
  A well-formed month key: four digits, a dash, two digits, as in \<open>2025-04\<close>.
\<close>

definition is_digit :: "char \<Rightarrow> bool" where
  "is_digit c = (c \<in> set ''0123456789'')"

definition wf_month_key :: "string \<Rightarrow> bool" where
  "wf_month_key m =
     (case m of
        [y1, y2, y3, y4, dash, m1, m2] \<Rightarrow>
          is_digit y1 \<and> is_digit y2 \<and> is_digit y3 \<and> is_digit y4 \<and> dash = CHR ''-''
          \<and> is_digit m1 \<and> is_digit m2
      | _ \<Rightarrow> False)"

section \<open>Example stores\<close>

text \<open>
  \<open>test_store\<close> is the store after the \<open>setUp\<close> of \<open>tests/test.py\<close> on a new database;
  \<open>budget_store\<close> adds the budget of \<open>test_budget_alert\<close>; \<open>spent_store a\<close> is that store
  with one expense of amount \<open>a\<close> on Food, as \<open>log_expense\<close> leaves it before it runs the
  budget check. \<open>smtp_down\<close> is a mail session that fails on every message.
\<close>

definition test_store :: tracker where
  "test_store = snd (add_user ''test@example.com'' ''Test User'' setup_database)"

definition budget_store :: tracker where
  "budget_store = set_budget 1 ''Food'' 100 ''2025-04'' 0.1 test_store"

definition april_17 :: date where
  "april_17 = \<lparr>d_year = 2025, d_month = 4, d_day = 17\<rparr>"

definition april_18 :: date where
  "april_18 = \<lparr>d_year = 2025, d_month = 4, d_day = 18\<rparr>"

definition smtp_down :: "mail \<Rightarrow> string option" where
  "smtp_down m = Some ''Connection refused''"

definition spent_store :: "real \<Rightarrow> tracker" where
  "spent_store a = budget_store\<lparr>expenses :=
     [\<lparr>e_id = 1, e_user_id = 1, e_amount = a, e_category = ''Food'', e_description = ''Dinner'',
       e_date = ''2025-04-17'', e_shared_with = []\<rparr>]\<rparr>"

text \<open>
  \<open>report_store\<close> has expenses on three categories and budgets on four: Food under its
  budget, Fun over it, Gifts with a budget of zero, Transit with a budget and no expense.
\<close>

definition report_store :: tracker where
  "report_store = test_store\<lparr>
     expenses :=
       [\<lparr>e_id = 1, e_user_id = 1, e_amount = 95, e_category = ''Food'', e_description = ''Dinner'',
         e_date = ''2025-04-17'', e_shared_with = []\<rparr>,
        \<lparr>e_id = 2, e_user_id = 1, e_amount = 30, e_category = ''Fun'', e_description = ''Cinema'',
         e_date = ''2025-04-18'', e_shared_with = []\<rparr>,
        \<lparr>e_id = 3, e_user_id = 1, e_amount = 10, e_category = ''Gifts'', e_description = ''Card'',
         e_date = ''2025-04-19'', e_shared_with = []\<rparr>],
     budgets :=
       [\<lparr>b_id = 1, b_user_id = 1, b_category = ''Food'', b_amount = 100, b_month = ''2025-04'',
         b_alert_threshold = 0.1\<rparr>,
        \<lparr>b_id = 2, b_user_id = 1, b_category = ''Transit'', b_amount = 50, b_month = ''2025-04'',
         b_alert_threshold = 0.1\<rparr>,
        \<lparr>b_id = 3, b_user_id = 1, b_category = ''Fun'', b_amount = 20, b_month = ''2025-04'',
         b_alert_threshold = 0.1\<rparr>,
        \<lparr>b_id = 4, b_user_id = 1, b_category = ''Gifts'', b_amount = 0, b_month = ''2025-04'',
         b_alert_threshold = 0.1\<rparr>]\<rparr>"

text \<open>
  \<open>year_store\<close> has Food expenses of user 1 in April 2024 and in March, April, May,
  October, November and December 2025, and one expense of user 2.
\<close>

definition year_store :: tracker where
  "year_store = test_store\<lparr>
     expenses :=
       [\<lparr>e_id = 1, e_user_id = 1, e_amount = 1000, e_category = ''Food'', e_description = ''a'',
         e_date = ''2024-04-09'', e_shared_with = []\<rparr>,
        \<lparr>e_id = 2, e_user_id = 1, e_amount = 5, e_category = ''Food'', e_description = ''b'',
         e_date = ''2025-03-30'', e_shared_with = []\<rparr>,
        \<lparr>e_id = 3, e_user_id = 1, e_amount = 10, e_category = ''Food'', e_description = ''c'',
         e_date = ''2025-04-02'', e_shared_with = []\<rparr>,
        \<lparr>e_id = 4, e_user_id = 1, e_amount = 20, e_category = ''Food'', e_description = ''d'',
         e_date = ''2025-04-17'', e_shared_with = []\<rparr>,
        \<lparr>e_id = 5, e_user_id = 1, e_amount = 40, e_category = ''Food'', e_description = ''e'',
         e_date = ''2025-05-01'', e_shared_with = []\<rparr>,
        \<lparr>e_id = 6, e_user_id = 1, e_amount = 100, e_category = ''Food'', e_description = ''f'',
         e_date = ''2025-10-03'', e_shared_with = []\<rparr>,
        \<lparr>e_id = 7, e_user_id = 1, e_amount = 200, e_category = ''Food'', e_description = ''g'',
         e_date = ''2025-11-03'', e_shared_with = []\<rparr>,
        \<lparr>e_id = 8, e_user_id = 1, e_amount = 400, e_category = ''Food'', e_description = ''h'',
         e_date = ''2025-12-03'', e_shared_with = []\<rparr>,
        \<lparr>e_id = 9, e_user_id = 2, e_amount = 7, e_category = ''Food'', e_description = ''i'',
         e_date = ''2025-04-17'', e_shared_with = []\<rparr>]\<rparr>"

text \<open>
  \<open>orphan_store\<close> is a new database with a budget for the user id 7, which no user row
  has. \<open>reset_store\<close> is \<open>test_store\<close> after the budget of Food for 2025-04 is set to 50 and
  then to 100.
\<close>

definition orphan_store :: tracker where
  "orphan_store = set_budget 7 ''Food'' 100 ''2025-04'' 0.1 setup_database"

definition reset_store :: tracker where
  "reset_store = set_budget 1 ''Food'' 100 ''2025-04'' 0.1
     (set_budget 1 ''Food'' 50 ''2025-04'' 0.1 test_store)"

section \<open>Lemmas on the storage engine\<close>

lemma like_percent_all: "like ''%'' t"
  by (induction t) simp_all

lemma like_skip_percent: "like ps t \<Longrightarrow> like (CHR ''%'' # ps) t"
  by (cases t) simp_all

lemma like_prefix: "prefix m t \<Longrightarrow> like (m @ ''%'') t"
proof (induction m arbitrary: t)
  case Nil
  show ?case using like_percent_all by simp
next
  case (Cons p ps)
  then obtain cs where t: "t = p # cs" and pre: "prefix ps cs"
    by (cases t) auto
  have ih: "like (ps @ ''%'') cs" using Cons.IH pre by blast
  show ?case
  proof (cases "p = CHR ''%''")
    case True
    have "like (CHR ''%'' # ps @ ''%'') cs" using ih by (rule like_skip_percent)
    then show ?thesis using True t by simp
  next
    case False
    then show ?thesis using ih t by simp
  qed
qed

lemma lower_range: "lower c = c \<or> lower c \<in> set ''abcdefghijklmnopqrstuvwxyz''"
  unfolding lower_def by simp

lemma lower_date_chars: "\<forall>p \<in> set ''0123456789-''. lower p = p"
  by (simp add: lower_def)

lemma lower_date_char1: "date_char p \<Longrightarrow> lower p = p"
  using lower_date_chars unfolding date_char_def by blast

lemma date_char_not_lower: "date_char p \<Longrightarrow> p \<notin> set ''abcdefghijklmnopqrstuvwxyz''"
  unfolding date_char_def by auto

lemma lower_date_char: "date_char p \<Longrightarrow> lower p = lower c \<longleftrightarrow> p = c"
proof
  assume d: "date_char p" and e: "lower p = lower c"
  then have "lower c = p" using lower_date_char1 by simp
  then show "p = c" using lower_range[of c] date_char_not_lower[OF d] by metis
next
  assume "p = c" then show "lower p = lower c" by simp
qed

lemma date_char_not_wild: "date_char p \<Longrightarrow> p \<noteq> CHR ''%'' \<and> p \<noteq> CHR ''_''"
  unfolding date_char_def by auto

lemma like_date_chars: "list_all date_char m \<Longrightarrow> like (m @ ''%'') t = prefix m t"
proof (induction m arbitrary: t)
  case Nil
  show ?case using like_percent_all by simp
next
  case (Cons p ps)
  have p: "date_char p" and ps: "list_all date_char ps" using Cons.prems by simp_all
  show ?case
  proof (cases t)
    case Nil
    then show ?thesis using date_char_not_wild[OF p] by simp
  next
    case (Cons c cs)
    have "like ((p # ps) @ ''%'') (c # cs) = (lower p = lower c \<and> like (ps @ ''%'') cs)"
      using date_char_not_wild[OF p] by simp
    also have "\<dots> = (p = c \<and> prefix ps cs)"
      using lower_date_char[OF p] Cons.IH[OF ps] by simp
    finally show ?thesis using Cons by simp
  qed
qed

lemma digit_date_char: "date_char (digit n)"
proof -
  have "\<forall>k < 10. ''0123456789'' ! k \<in> set ''0123456789-''"
    by (simp add: All_less_Suc2 numeral_nat)
  moreover have "n mod 10 < 10" by simp
  ultimately show ?thesis unfolding digit_def date_char_def by blast
qed

lemma strftime_ym_date_chars: "list_all date_char (strftime_ym d)"
  unfolding strftime_ym_def pad4_def pad2_def by (simp add: digit_date_char) (simp add: date_char_def)

lemma like_strftime_ym: "like (strftime_ym d @ ''%'') t = prefix (strftime_ym d) t"
  by (rule like_date_chars[OF strftime_ym_date_chars])

lemma strftime_prefix: "prefix (strftime_ym d) (strftime_ymd d)"
  unfolding strftime_ym_def strftime_ymd_def by simp

lemma fold_max_ge: "(i::int) \<le> fold max xs i \<and> (\<forall>x \<in> set xs. x \<le> fold max xs i)"
proof (induction xs arbitrary: i)
  case Nil
  show ?case by simp
next
  case (Cons y ys)
  have "max y i \<le> fold max ys (max y i)" and "\<forall>x \<in> set ys. x \<le> fold max ys (max y i)"
    using Cons.IH[of "max y i"] by simp_all
  then show ?case by auto
qed

lemma next_rowid_above: "x \<in> set ids \<Longrightarrow> x < next_rowid ids"
proof (cases ids)
  case Nil
  assume "x \<in> set ids" then show ?thesis using Nil by simp
next
  case (Cons i rest)
  assume "x \<in> set ids"
  then have "x \<le> fold max rest i" using Cons fold_max_ge[of i rest] by auto
  then show ?thesis using Cons by (simp add: next_rowid_def)
qed

lemma next_rowid_fresh: "next_rowid ids \<notin> set ids"
  using next_rowid_above[of "next_rowid ids" ids] by auto

lemma send_alert_frame:
  "users (snd (send_alert smtp u c subj body s)) = users s
   \<and> expenses (snd (send_alert smtp u c subj body s)) = expenses s
   \<and> budgets (snd (send_alert smtp u c subj body s)) = budgets s"
  unfolding send_alert_def by (simp add: Let_def split: option.split)

lemma check_budget_frame:
  "users (snd (check_budget smtp now u c s)) = users s
   \<and> expenses (snd (check_budget smtp now u c s)) = expenses s
   \<and> budgets (snd (check_budget smtp now u c s)) = budgets s"
  unfolding check_budget_def by (simp add: Let_def send_alert_frame split: option.split)

lemma log_expense_expenses:
  "expenses (snd (log_expense smtp now now' u a c descr sh s)) =
     expenses s @ [\<lparr>e_id = next_rowid (map e_id (expenses s)), e_user_id = u, e_amount = a,
        e_category = c, e_description = descr, e_date = strftime_ymd now,
        e_shared_with = (case sh of None \<Rightarrow> [] | Some w \<Rightarrow> w)\<rparr>]"
  unfolding log_expense_def by (simp add: Let_def check_budget_frame)

lemma log_expense_frame:
  "users (snd (log_expense smtp now now' u a c descr sh s)) = users s
   \<and> budgets (snd (log_expense smtp now now' u a c descr sh s)) = budgets s"
  unfolding log_expense_def by (simp add: Let_def check_budget_frame)

lemma get_monthly_spending_sum:
  "get_monthly_spending u c m s =
     sum_list (map e_amount (filter (\<lambda>e. e_user_id e = u \<and> e_category e = c
        \<and> like (m @ ''%'') (e_date e)) (expenses s)))"
  unfolding get_monthly_spending_def sql_sum_def by (simp add: Let_def)

lemma set_budget_appends:
  "budgets (set_budget u c a m t s) =
     budgets s @ [\<lparr>b_id = next_rowid (map b_id (budgets s)), b_user_id = u, b_category = c,
        b_amount = a, b_month = m, b_alert_threshold = t\<rparr>]"
proof -
  have "b_id b \<noteq> next_rowid (map b_id (budgets s))" if "b \<in> set (budgets s)" for b
  proof -
    have "b_id b \<in> set (map b_id (budgets s))" using that by simp
    then show ?thesis using next_rowid_fresh[of "map b_id (budgets s)"] by metis
  qed
  then have "filter (\<lambda>b. b_id b \<noteq> next_rowid (map b_id (budgets s))) (budgets s) = budgets s"
    by (simp add: filter_id_conv)
  then show ?thesis unfolding set_budget_def by (simp add: Let_def)
qed

lemma set_budget_twice_two_more:
  "length (filter (\<lambda>b. b_user_id b = u \<and> b_category b = c \<and> b_month b = m)
      (budgets (set_budget u c a' m t' (set_budget u c a m t s)))) =
   length (filter (\<lambda>b. b_user_id b = u \<and> b_category b = c \<and> b_month b = m) (budgets s)) + 2"
  by (simp add: set_budget_appends)

lemma filter_unique_key:
  "distinct (map f xs) \<Longrightarrow> x \<in> set xs \<Longrightarrow> filter (\<lambda>y. f y = f x) xs = [x]"
proof (induction xs)
  case Nil
  then show ?case by simp
next
  case (Cons y ys)
  show ?case
  proof (cases "y = x")
    case True
    have "f x \<notin> set (map f ys)" using Cons.prems(1) True by simp
    then have "\<forall>z \<in> set ys. f z \<noteq> f x" by (metis image_eqI set_map)
    then have "filter (\<lambda>y. f y = f x) ys = []" by (simp add: filter_empty_conv)
    then show ?thesis using True by simp
  next
    case False
    then have "x \<in> set ys" using Cons.prems(2) by simp
    moreover have "f y \<noteq> f x" using Cons.prems(1) \<open>x \<in> set ys\<close> by auto
    ultimately show ?thesis using Cons by simp
  qed
qed

lemma add_user_keeps_unique:
  "distinct (map u_email (users s)) \<Longrightarrow> distinct (map u_email (users (snd (add_user email name s))))"
  unfolding add_user_def by (auto simp: Let_def)

lemma alerts_append: "alerts (xs @ ys) = alerts xs @ alerts ys"
  by (induction xs rule: alerts.induct) simp_all

lemma send_alert_found:
  assumes "fetchone (filter (\<lambda>x. u_id x = u) (users s)) = Some usr"
  shows "send_alert smtp u c subj body s =
     (Inr (), s\<lparr>trace := trace s @ Smtp (alert_mail (u_email usr) subj c body) #
        (case smtp (alert_mail (u_email usr) subj c body) of
           None \<Rightarrow> [] | Some e \<Rightarrow> [Print (''Failed to send email: '' @ e)])\<rparr>)"
  using assms unfolding send_alert_def alert_mail_def
  by (simp add: Let_def split: option.split)

lemma send_alert_found_alerts:
  assumes "fetchone (filter (\<lambda>x. u_id x = u) (users s)) = Some usr"
  shows "alerts (trace (snd (send_alert smtp u c subj body s))) =
     alerts (trace s) @ [alert_mail (u_email usr) subj c body]"
  unfolding send_alert_found[OF assms] by (simp add: alerts_append split: option.split)

lemma send_alert_at_most_one:
  "\<exists>ms. alerts (trace (snd (send_alert smtp u c subj body s))) = alerts (trace s) @ ms
      \<and> length ms \<le> 1"
  unfolding send_alert_def by (simp add: Let_def alerts_append split: option.split)

lemma check_budget_cases:
  "check_budget smtp now u c s = (Inr (), s)
   \<or> check_budget smtp now u c s = (Inl ZeroDivisionError, s)
   \<or> (\<exists>subj body. check_budget smtp now u c s = send_alert smtp u c subj body s)"
  unfolding check_budget_def by (auto simp: Let_def split: option.split)

lemma check_budget_at_most_one:
  "\<exists>ms. alerts (trace (snd (check_budget smtp now u c s))) = alerts (trace s) @ ms
      \<and> length ms \<le> 1"
proof -
  consider "check_budget smtp now u c s = (Inr (), s)"
    | "check_budget smtp now u c s = (Inl ZeroDivisionError, s)"
    | subj body where "check_budget smtp now u c s = send_alert smtp u c subj body s"
    using check_budget_cases by blast
  then show ?thesis
  proof cases
    case 1 then show ?thesis by simp
  next
    case 2 then show ?thesis by simp
  next
    case 3 then show ?thesis using send_alert_at_most_one by simp
  qed
qed

lemma send_alert_fst: "fst (send_alert smtp u c subj body s) \<noteq> Inl ZeroDivisionError"
  unfolding send_alert_def by (simp add: Let_def split: option.split)



lemma check_budget_zero_division_iff:
  "fst (check_budget smtp now u c s) = Inl ZeroDivisionError \<longleftrightarrow>
     (\<exists>b. fetchone (filter (\<lambda>b. b_user_id b = u \<and> b_category b = c
              \<and> b_month b = strftime_ym now) (budgets s)) = Some b \<and> b_amount b = 0)"
  unfolding check_budget_def by (auto simp: Let_def send_alert_fst split: option.split)

lemma check_budget_zero:
  assumes "fetchone (filter (\<lambda>b. b_user_id b = u \<and> b_category b = c
              \<and> b_month b = strftime_ym now) (budgets s)) = Some b" and "b_amount b = 0"
  shows "check_budget smtp now u c s = (Inl ZeroDivisionError, s)"
  unfolding check_budget_def using assms by (simp add: Let_def)

lemmas eval_defs = setup_database_def add_user_def get_user_id_def set_budget_def
  log_expense_def check_budget_def send_alert_def get_monthly_spending_def sql_sum_def
  fetchone_def next_rowid_def strftime_ym_def strftime_ymd_def pad2_def pad4_def digit_def
  lower_def alert_mail_def Let_def

lemmas store_defs = test_store_def budget_store_def april_17_def april_18_def smtp_down_def
  spent_store_def

lemma strftime_ym_april_17: "strftime_ym april_17 = ''2025-04''"
  by (simp add: eval_defs store_defs)

lemma dict_tabulate: "dict (map (\<lambda>k. (k, f k)) ks) k = (if k \<in> set ks then Some (f k) else None)"
proof -
  have "rev (map (\<lambda>k. (k, f k)) ks) = map (\<lambda>k. (k, f k)) (rev ks)" by (simp add: rev_map)
  then show ?thesis unfolding dict_def by (simp add: map_of_map_restrict restrict_map_def)
qed

lemma dict_None: "dict kvs k = None \<longleftrightarrow> k \<notin> fst ` set kvs"
  unfolding dict_def by (simp add: map_of_eq_None_iff)

lemma dict_SomeD: "dict kvs k = Some v \<Longrightarrow> (k, v) \<in> set kvs"
  unfolding dict_def using map_of_SomeD[of "rev kvs" k v] by simp

lemma group_by_category_keys: "map fst (group_by_category rows) = remdups (map e_category rows)"
  unfolding group_by_category_def by (simp add: comp_def)

lemma group_by_category_spent:
  "(case dict (group_by_category rows) k of None \<Rightarrow> 0 | Some v \<Rightarrow> v) =
     sum_list (map e_amount (filter (\<lambda>e. e_category e = k) rows))"
proof (cases "k \<in> set (map e_category rows)")
  case True
  then show ?thesis unfolding group_by_category_def by (simp add: dict_tabulate)
next
  case False
  then have "filter (\<lambda>e. e_category e = k) rows = []"
    by (auto simp: filter_empty_conv)
  then show ?thesis using False unfolding group_by_category_def by (simp add: dict_tabulate)
qed

lemma report_line_categories:
  "map r_category (snd (generate_report u m s)) =
     remdups (remdups (map e_category
         (filter (\<lambda>e. e_user_id e = u \<and> like (m @ ''%'') (e_date e)) (expenses s)))
       @ map b_category (filter (\<lambda>b. b_user_id b = u \<and> b_month b = m) (budgets s)))"
  unfolding generate_report_def
  by (simp add: Let_def comp_def group_by_category_keys)

lemma report_distinct: "distinct (map r_category (snd (generate_report u m s)))"
  unfolding report_line_categories by simp

lemma report_set: "set (map r_category (snd (generate_report u m s))) = report_categories u m s"
  unfolding report_line_categories report_categories_def by auto

lemma report_line:
  assumes "r \<in> set (snd (generate_report u m s))"
  shows "r_spent r = sum_list (map e_amount (filter (\<lambda>e. e_category e = r_category r)
            (filter (\<lambda>e. e_user_id e = u \<and> like (m @ ''%'') (e_date e)) (expenses s))))
     \<and> r_budget r = (case dict (map (\<lambda>b. (b_category b, b_amount b))
            (filter (\<lambda>b. b_user_id b = u \<and> b_month b = m) (budgets s))) (r_category r) of
          None \<Rightarrow> 0 | Some v \<Rightarrow> v)
     \<and> r_status r = (if r_spent r \<le> r_budget r \<or> r_budget r = 0 then ''Under'' else ''Over'')"
  using assms unfolding generate_report_def
  by (auto simp: Let_def group_by_category_spent)

lemma wf_month_keyD:
  assumes "wf_month_key m"
  shows "length m = 7 \<and> list_all date_char m"
proof -
  obtain y1 y2 y3 y4 dash m1 m2 where m: "m = [y1, y2, y3, y4, dash, m1, m2]"
    using assms unfolding wf_month_key_def
    by (auto split: list.splits)
  have "is_digit y1 \<and> is_digit y2 \<and> is_digit y3 \<and> is_digit y4 \<and> dash = CHR ''-''
          \<and> is_digit m1 \<and> is_digit m2"
    using assms unfolding wf_month_key_def m by simp
  moreover have "date_char c" if "is_digit c" for c
    using that unfolding is_digit_def date_char_def by auto
  moreover have "date_char CHR ''-''" unfolding date_char_def by simp
  ultimately show ?thesis unfolding m by auto
qed

lemma length_strftime_ym: "length (strftime_ym d) = 7"
  unfolding strftime_ym_def pad4_def pad2_def by simp

lemma prefix_same_length: "length m = length a \<Longrightarrow> prefix m (a @ b) = (m = a)"
  by (auto simp: prefix_def)

lemma strftime_ymd_split: "strftime_ymd d = strftime_ym d @ ''-'' @ pad2 (d_day d)"
  unfolding strftime_ymd_def strftime_ym_def by simp

lemma like_wf_key: "wf_month_key m \<Longrightarrow> like (m @ ''%'') t = prefix m t"
  using wf_month_keyD like_date_chars by blast

lemma like_wf_key_date:
  assumes "wf_month_key m"
  shows "like (m @ ''%'') (strftime_ymd d) = (strftime_ym d = m)"
proof -
  have "length m = length (strftime_ym d)"
    using wf_month_keyD[OF assms] length_strftime_ym by simp
  then have "prefix m (strftime_ymd d) = (m = strftime_ym d)"
    unfolding strftime_ymd_split by (rule prefix_same_length)
  then show ?thesis using like_wf_key[OF assms] by auto
qed

lemma div_mod_10_eq: "x div 10 = y div 10 \<Longrightarrow> x mod 10 = y mod 10 \<Longrightarrow> x = (y::nat)"
  by (metis div_mult_mod_eq)

lemma digit_inj: "digit a = digit b \<Longrightarrow> a mod 10 = b mod 10"
proof -
  have "\<forall>i < 10. \<forall>j < 10. ''0123456789'' ! i = ''0123456789'' ! j \<longrightarrow> i = j"
    by (simp add: All_less_Suc2 numeral_nat)
  moreover have "a mod 10 < 10" "b mod 10 < 10" by simp_all
  moreover assume "digit a = digit b"
  ultimately show ?thesis unfolding digit_def by blast
qed

lemma pad2_inj:
  assumes e: "pad2 a = pad2 b" and a: "a < 100" and b: "b < 100"
  shows "a = b"
proof -
  have d1: "digit (a div 10) = digit (b div 10)" and d0: "digit a = digit b"
    using e unfolding pad2_def by simp_all
  have m1: "(a div 10) mod 10 = (b div 10) mod 10" using d1 by (rule digit_inj)
  have m0: "a mod 10 = b mod 10" using d0 by (rule digit_inj)
  have "a div 10 < 10" "b div 10 < 10"
    using a b by (simp_all add: less_mult_imp_div_less)
  then have "a div 10 = b div 10" using m1 by simp
  then show ?thesis using m0 by (rule div_mod_10_eq)
qed

lemma pad4_inj:
  assumes e: "pad4 a = pad4 b" and a: "a < 10000" and b: "b < 10000"
  shows "a = b"
proof -
  have d3: "digit (a div 1000) = digit (b div 1000)" and d2: "digit (a div 100) = digit (b div 100)"
    and d1: "digit (a div 10) = digit (b div 10)" and d0: "digit a = digit b"
    using e unfolding pad4_def by simp_all
  have m3: "(a div 1000) mod 10 = (b div 1000) mod 10" using d3 by (rule digit_inj)
  have m2: "(a div 100) mod 10 = (b div 100) mod 10" using d2 by (rule digit_inj)
  have m1: "(a div 10) mod 10 = (b div 10) mod 10" using d1 by (rule digit_inj)
  have m0: "a mod 10 = b mod 10" using d0 by (rule digit_inj)
  have "a div 1000 < 10" "b div 1000 < 10"
    using a b by (simp_all add: less_mult_imp_div_less)
  then have "a div 1000 = b div 1000" using m3 by simp
  then have "(a div 100) div 10 = (b div 100) div 10" by (simp add: div_mult2_eq[symmetric])
  then have "a div 100 = b div 100" using m2 by (rule div_mod_10_eq)
  then have "(a div 10) div 10 = (b div 10) div 10" by (simp add: div_mult2_eq[symmetric])
  then have "a div 10 = b div 10" using m1 by (rule div_mod_10_eq)
  then show ?thesis using m0 by (rule div_mod_10_eq)
qed

lemma strftime_ym_inj:
  assumes "valid_date d" "valid_date d'" "strftime_ym d = strftime_ym d'"
  shows "d_year d = d_year d' \<and> d_month d = d_month d'"
proof -
  have "pad4 (d_year d) = pad4 (d_year d')" "pad2 (d_month d) = pad2 (d_month d')"
    using assms(3) unfolding strftime_ym_def by (simp_all add: pad4_def pad2_def)
  then show ?thesis
    using assms(1,2) pad4_inj[of "d_year d" "d_year d'"] pad2_inj[of "d_month d" "d_month d'"]
    unfolding valid_date_def by simp
qed

lemma report_line_spent:
  assumes "r \<in> set (snd (generate_report u m s))"
  shows "r_spent r = get_monthly_spending u (r_category r) m s"
proof -
  have "filter (\<lambda>e. e_category e = r_category r)
          (filter (\<lambda>e. e_user_id e = u \<and> like (m @ ''%'') (e_date e)) (expenses s)) =
        filter (\<lambda>e. e_user_id e = u \<and> e_category e = r_category r
          \<and> like (m @ ''%'') (e_date e)) (expenses s)"
    unfolding filter_filter by (rule filter_cong) auto
  then show ?thesis using report_line[OF assms] unfolding get_monthly_spending_sum by simp
qed

lemmas like_eval = get_monthly_spending_def sql_sum_def year_store_def test_store_def
  add_user_def setup_database_def next_rowid_def lower_def Let_def

lemma log_expense_zero_division:
  assumes bud: "fetchone (filter (\<lambda>b. b_user_id b = u \<and> b_category b = c
              \<and> b_month b = strftime_ym now') (budgets s)) = Some b"
  shows "(b_amount b = 0 \<longrightarrow>
            log_expense smtp now now' u a c d sh s =
              (Inl ZeroDivisionError,
               s\<lparr>expenses := expenses s @
                  [\<lparr>e_id = next_rowid (map e_id (expenses s)), e_user_id = u, e_amount = a,
                    e_category = c, e_description = d, e_date = strftime_ymd now,
                    e_shared_with = (case sh of None \<Rightarrow> [] | Some w \<Rightarrow> w)\<rparr>]\<rparr>))
     \<and> (b_amount b \<noteq> 0 \<longrightarrow> fst (log_expense smtp now now' u a c d sh s) \<noteq> Inl ZeroDivisionError)"
proof (intro conjI impI)
  let ?s1 = "s\<lparr>expenses := expenses s @
                  [\<lparr>e_id = next_rowid (map e_id (expenses s)), e_user_id = u, e_amount = a,
                    e_category = c, e_description = d, e_date = strftime_ymd now,
                    e_shared_with = (case sh of None \<Rightarrow> [] | Some w \<Rightarrow> w)\<rparr>]\<rparr>"
  have l: "log_expense smtp now now' u a c d sh s = check_budget smtp now' u c ?s1"
    unfolding log_expense_def by (simp add: Let_def)
  have bud1: "fetchone (filter (\<lambda>b. b_user_id b = u \<and> b_category b = c
              \<and> b_month b = strftime_ym now') (budgets ?s1)) = Some b"
    using bud by simp
  {
    assume z: "b_amount b = 0"
    show "log_expense smtp now now' u a c d sh s = (Inl ZeroDivisionError, ?s1)"
      unfolding l by (rule check_budget_zero[OF bud1 z])
  }
  {
    assume nz: "b_amount b \<noteq> 0"
    show "fst (log_expense smtp now now' u a c d sh s) \<noteq> Inl ZeroDivisionError"
      unfolding l check_budget_zero_division_iff using bud1 nz by simp
  }
qed

section \<open>The claims\<close>

text \<open>
  C6. For every user, category and month for which no expense row matches the query of
  \<open>get_monthly_spending\<close>, the method returns \<open>0.0\<close>. It returns a number in every case:
  the \<open>None\<close> of the empty \<open>SUM\<close> is replaced by \<open>0.0\<close>, and nothing in the method raises.
\<close>

theorem C6_no_matching_rows_zero:
  assumes "\<forall>e \<in> set (expenses s).
     \<not> (e_user_id e = u \<and> e_category e = c \<and> like (m @ ''%'') (e_date e))"
  shows "get_monthly_spending u c m s = 0"
proof -
  have "filter (\<lambda>e. e_user_id e = u \<and> e_category e = c \<and> like (m @ ''%'') (e_date e))
          (expenses s) = []"
    using assms by (simp add: filter_empty_conv)
  then show ?thesis unfolding get_monthly_spending_def sql_sum_def by (simp add: Let_def)
qed

theorem C6_no_matching_rows_zero_witness:
  "filter (\<lambda>e. e_user_id e = 1 \<and> e_category e = ''Food'' \<and> like (''2025-04'' @ ''%'') (e_date e))
      (expenses (setup_database\<lparr>expenses :=
        [\<lparr>e_id = 1, e_user_id = 1, e_amount = 50, e_category = ''Food'', e_description = ''May'',
          e_date = ''2025-05-02'', e_shared_with = []\<rparr>]\<rparr>)) = []
   \<and> get_monthly_spending 1 ''Food'' ''2025-04'' (setup_database\<lparr>expenses :=
        [\<lparr>e_id = 1, e_user_id = 1, e_amount = 50, e_category = ''Food'', e_description = ''May'',
          e_date = ''2025-05-02'', e_shared_with = []\<rparr>]\<rparr>) = 0"
proof -
  have h: "\<forall>e \<in> set (expenses (setup_database\<lparr>expenses :=
        [\<lparr>e_id = 1, e_user_id = 1, e_amount = 50, e_category = ''Food'', e_description = ''May'',
          e_date = ''2025-05-02'', e_shared_with = []\<rparr>]\<rparr>)).
      \<not> (e_user_id e = 1 \<and> e_category e = ''Food'' \<and> like (''2025-04'' @ ''%'') (e_date e))"
    by (simp add: setup_database_def lower_def)
  show ?thesis using C6_no_matching_rows_zero[OF h] by (simp add: setup_database_def lower_def)
qed

text \<open>
  C1. The claim: after any sequence of \<open>set_budget\<close> calls the table holds at most one row
  for a key (user, category, month), and a second call for a key leaves one row with the
  values of the second call. On the code the second call adds a row beside the first:
  on a new database, \<open>set_budget(1, "Food", 100.0, "2025-04", 0.1)\<close> followed by
  \<open>set_budget(1, "Food", 200.0, "2025-04", 0.2)\<close> leaves two rows for the key, with the
  ids 1 and 2, the first still holding the values of the first call.
\<close>

theorem C1_set_budget_twice_two_rows:
  "map (\<lambda>b. (b_id b, b_amount b, b_alert_threshold b))
     (filter (\<lambda>b. b_user_id b = 1 \<and> b_category b = ''Food'' \<and> b_month b = ''2025-04'')
       (budgets (set_budget 1 ''Food'' 200 ''2025-04'' 0.2
                  (set_budget 1 ''Food'' 100 ''2025-04'' 0.1 setup_database))))
   = [(1, 100, 0.1), (2, 200, 0.2)]"
  by (simp add: set_budget_def setup_database_def next_rowid_def Let_def)

text \<open>
  C4. In a store whose user rows have distinct emails (the \<open>UNIQUE\<close> constraint of the
  column), registering an email twice, with any two names, returns the same id from both
  calls, and afterwards exactly one user row has that email. The conflict of the second
  insert is handled inside \<open>add_user\<close>: the method returns an id, never an error.
\<close>

theorem C4_add_user_twice:
  assumes "distinct (map u_email (users s))"
  shows "fst (add_user email name2 (snd (add_user email name1 s))) = fst (add_user email name1 s)
     \<and> (\<exists>i. fst (add_user email name1 s) = Some i)
     \<and> length (filter (\<lambda>x. u_email x = email)
          (users (snd (add_user email name2 (snd (add_user email name1 s)))))) = 1"
proof (cases "\<exists>x \<in> set (users s). u_email x = email")
  case True
  then obtain x where x: "x \<in> set (users s)" "u_email x = email" by blast
  have f: "filter (\<lambda>y. u_email y = email) (users s) = [x]"
    using filter_unique_key[OF assms x(1)] x(2) by simp
  have a: "add_user email n s = (Some (u_id x), s)" for n
    using True f unfolding add_user_def get_user_id_def fetchone_def by simp
  show ?thesis using f by (simp add: a)
next
  case False
  let ?i = "next_rowid (map u_id (users s))"
  let ?s1 = "s\<lparr>users := users s @ [\<lparr>u_id = ?i, u_email = email, u_name = name1\<rparr>]\<rparr>"
  have e: "filter (\<lambda>y. u_email y = email) (users s) = []"
    using False by (simp add: filter_empty_conv)
  have a1: "add_user email name1 s = (Some ?i, ?s1)"
    using False unfolding add_user_def by (simp add: Let_def)
  have a2: "add_user email name2 ?s1 = (Some ?i, ?s1)"
    unfolding add_user_def get_user_id_def fetchone_def using e by simp
  show ?thesis using e by (simp add: a1 a2)
qed

theorem C4_add_user_twice_witness:
  "distinct (map u_email (users (snd (add_user ''ann@example.com'' ''Ann'' setup_database))))
   \<and> fst (add_user ''test@example.com'' ''Other Name''
        (snd (add_user ''test@example.com'' ''Test User''
          (snd (add_user ''ann@example.com'' ''Ann'' setup_database))))) = Some 2
   \<and> fst (add_user ''test@example.com'' ''Test User''
        (snd (add_user ''ann@example.com'' ''Ann'' setup_database))) = Some 2
   \<and> length (filter (\<lambda>x. u_email x = ''test@example.com'')
        (users (snd (add_user ''test@example.com'' ''Other Name''
          (snd (add_user ''test@example.com'' ''Test User''
            (snd (add_user ''ann@example.com'' ''Ann'' setup_database)))))))) = 1"
proof -
  have h: "distinct (map u_email (users (snd (add_user ''ann@example.com'' ''Ann'' setup_database))))"
    by (simp add: add_user_def setup_database_def Let_def)
  have v: "fst (add_user ''test@example.com'' ''Test User''
        (snd (add_user ''ann@example.com'' ''Ann'' setup_database))) = Some 2"
    by (simp add: add_user_def setup_database_def next_rowid_def Let_def)
  show ?thesis
    using h v C4_add_user_twice[OF h, of "''test@example.com''" "''Other Name''" "''Test User''"]
    by simp
qed

text \<open>
  C9. When a user row with the email exists, \<open>add_user\<close> with that email and any name
  leaves the store as it was: the row is still there, with the name it had, and the name
  given to the call is stored nowhere.
\<close>

theorem C9_reregister_keeps_row:
  assumes "x \<in> set (users s)" and "u_email x = email"
  shows "snd (add_user email name' s) = s \<and> x \<in> set (users (snd (add_user email name' s)))"
  using assms unfolding add_user_def by auto

theorem C9_reregister_keeps_row_witness:
  "users (snd (add_user ''test@example.com'' ''Other Name''
      (snd (add_user ''test@example.com'' ''Test User'' setup_database))))
   = [\<lparr>u_id = 1, u_email = ''test@example.com'', u_name = ''Test User''\<rparr>]"
proof -
  have s: "snd (add_user ''test@example.com'' ''Test User'' setup_database) =
      setup_database\<lparr>users := [\<lparr>u_id = 1, u_email = ''test@example.com'', u_name = ''Test User''\<rparr>]\<rparr>"
    by (simp add: add_user_def setup_database_def next_rowid_def Let_def)
  have h: "\<lparr>u_id = 1, u_email = ''test@example.com'', u_name = ''Test User''\<rparr>
      \<in> set (users (snd (add_user ''test@example.com'' ''Test User'' setup_database)))"
    by (simp add: s)
  show ?thesis
    using C9_reregister_keeps_row[OF h, of "''test@example.com''" "''Other Name''"]
    by (simp add: s)
qed

text \<open>
  C5. Take a store with no expense of a user and a category whose date starts with the
  current month. After \<open>log_expense\<close> with amount \<open>A\<close>, \<open>get_monthly_spending\<close> for the user,
  the category and the current month returns \<open>A\<close>; after a second \<open>log_expense\<close> in the same
  month with amount \<open>B\<close> it returns \<open>A + B\<close>. Logging is not idempotent: two calls with
  the same arguments add two rows, with different ids.
\<close>

theorem C5_log_then_spending:
  assumes none: "\<forall>e \<in> set (expenses s).
      e_user_id e = u \<and> e_category e = c \<longrightarrow> \<not> prefix (strftime_ym now) (e_date e)"
    and same: "strftime_ym now2 = strftime_ym now"
  shows "get_monthly_spending u c (strftime_ym now)
           (snd (log_expense smtp now now' u A c d1 sh1 s)) = A
     \<and> get_monthly_spending u c (strftime_ym now)
           (snd (log_expense smtp2 now2 now2' u B c d2 sh2
              (snd (log_expense smtp now now' u A c d1 sh1 s)))) = A + B
     \<and> (\<exists>r1 r2. expenses (snd (log_expense smtp now now' u A c d1 sh1
              (snd (log_expense smtp now now' u A c d1 sh1 s)))) = expenses s @ [r1, r2]
          \<and> e_id r1 \<noteq> e_id r2)"
proof -
  let ?P = "\<lambda>e. e_user_id e = u \<and> e_category e = c \<and> like (strftime_ym now @ ''%'') (e_date e)"
  have old: "filter ?P (expenses s) = []"
    using none by (simp add: filter_empty_conv like_strftime_ym)
  have p1: "like (strftime_ym now @ ''%'') (strftime_ymd now)"
    using like_strftime_ym strftime_prefix by simp
  have p2: "like (strftime_ym now @ ''%'') (strftime_ymd now2)"
    using like_strftime_ym[of now2] strftime_prefix[of now2] same by simp
  have a: "get_monthly_spending u c (strftime_ym now)
           (snd (log_expense smtp now now' u A c d1 sh1 s)) = A"
    by (simp add: get_monthly_spending_sum log_expense_expenses old p1)
  have b: "get_monthly_spending u c (strftime_ym now)
           (snd (log_expense smtp2 now2 now2' u B c d2 sh2
              (snd (log_expense smtp now now' u A c d1 sh1 s)))) = A + B"
    by (simp add: get_monthly_spending_sum log_expense_expenses old p1 p2)
  let ?i = "next_rowid (map e_id (expenses s))"
  have "?i \<in> set (map e_id (expenses s) @ [?i])" by simp
  then have "?i < next_rowid (map e_id (expenses s) @ [?i])" by (rule next_rowid_above)
  then have c: "\<exists>r1 r2. expenses (snd (log_expense smtp now now' u A c d1 sh1
              (snd (log_expense smtp now now' u A c d1 sh1 s)))) = expenses s @ [r1, r2]
          \<and> e_id r1 \<noteq> e_id r2"
    by (simp add: log_expense_expenses)
  show ?thesis using a b c by blast
qed

theorem C5_log_then_spending_witness:
  "get_monthly_spending 1 ''Food'' ''2025-04''
      (snd (log_expense smtp_down april_17 april_17 1 50 ''Food'' ''Lunch'' None test_store)) = 50
   \<and> get_monthly_spending 1 ''Food'' ''2025-04''
      (snd (log_expense smtp_down april_18 april_18 1 25 ''Food'' ''Dinner'' None
        (snd (log_expense smtp_down april_17 april_17 1 50 ''Food'' ''Lunch'' None test_store)))) = 75"
proof -
  have h1: "\<forall>e \<in> set (expenses test_store).
      e_user_id e = 1 \<and> e_category e = ''Food'' \<longrightarrow> \<not> prefix (strftime_ym april_17) (e_date e)"
    by (simp add: eval_defs store_defs)
  have h2: "strftime_ym april_18 = strftime_ym april_17"
    by (simp add: eval_defs store_defs)
  show ?thesis
    using C5_log_then_spending[OF h1 h2, of smtp_down april_17 50 "''Lunch''" None
        smtp_down april_18 25 "''Dinner''" None] strftime_ym_april_17
    by simp
qed

text \<open>
  C2. The claim: given a budget row with amount 100 and threshold 0.1 for the user, the
  category and the current month, the check run after logging sends exactly one "Low
  budget warning" when the spending is 95 and exactly one "Budget exceeded" when it is
  105, and never both. What holds on the code: let the user exist, and let the store hold
  exactly one budget row for the key, with amount 100 and threshold 0.1. If the spending
  of the month is 95, the check hands exactly one message to the mail session, the "Low
  budget warning" (remaining fraction 0.05); if it is 105, exactly one message, the
  "Budget exceeded". In every store a check sends at most one message.
\<close>

theorem C2_alert_at_95_and_105:
  assumes one: "filter (\<lambda>b. b_user_id b = u \<and> b_category b = c
                   \<and> b_month b = strftime_ym now) (budgets s) = [b]"
    and amt: "b_amount b = 100" and thr: "b_alert_threshold b = 0.1"
    and usr: "fetchone (filter (\<lambda>x. u_id x = u) (users s)) = Some usr"
  shows "(get_monthly_spending u c (strftime_ym now) s = 95 \<longrightarrow>
            alerts (trace (snd (check_budget smtp now u c s))) =
              alerts (trace s) @ [alert_mail (u_email usr) ''Low budget warning'' c (Remaining 0.05)])
     \<and> (get_monthly_spending u c (strftime_ym now) s = 105 \<longrightarrow>
            alerts (trace (snd (check_budget smtp now u c s))) =
              alerts (trace s) @ [alert_mail (u_email usr) ''Budget exceeded'' c (Spent 105 100)])
     \<and> (\<exists>ms. alerts (trace (snd (check_budget smtp now u c s))) = alerts (trace s) @ ms
            \<and> length ms \<le> 1)"
proof (intro conjI impI)
  have bud: "fetchone (filter (\<lambda>b. b_user_id b = u \<and> b_category b = c
                   \<and> b_month b = strftime_ym now) (budgets s)) = Some b"
    unfolding one by (simp add: fetchone_def)
  {
    assume t: "get_monthly_spending u c (strftime_ym now) s = 95"
    have "check_budget smtp now u c s =
        send_alert smtp u c ''Low budget warning'' (Remaining 0.05) s"
      unfolding check_budget_def using bud amt thr t by (simp add: Let_def)
    then show "alerts (trace (snd (check_budget smtp now u c s))) =
        alerts (trace s) @ [alert_mail (u_email usr) ''Low budget warning'' c (Remaining 0.05)]"
      using send_alert_found_alerts[OF usr] by simp
  }
  {
    assume t: "get_monthly_spending u c (strftime_ym now) s = 105"
    have "check_budget smtp now u c s =
        send_alert smtp u c ''Budget exceeded'' (Spent 105 100) s"
      unfolding check_budget_def using bud amt thr t by (simp add: Let_def)
    then show "alerts (trace (snd (check_budget smtp now u c s))) =
        alerts (trace s) @ [alert_mail (u_email usr) ''Budget exceeded'' c (Spent 105 100)]"
      using send_alert_found_alerts[OF usr] by simp
  }
  show "\<exists>ms. alerts (trace (snd (check_budget smtp now u c s))) = alerts (trace s) @ ms
            \<and> length ms \<le> 1"
    by (rule check_budget_at_most_one)
qed

theorem C2_alert_at_95_and_105_witness:
  "alerts (trace (snd (check_budget smtp_down april_17 1 ''Food'' (spent_store 95)))) =
      [alert_mail ''test@example.com'' ''Low budget warning'' ''Food'' (Remaining 0.05)]
   \<and> alerts (trace (snd (check_budget smtp_down april_17 1 ''Food'' (spent_store 105)))) =
      [alert_mail ''test@example.com'' ''Budget exceeded'' ''Food'' (Spent 105 100)]"
proof -
  let ?b = "\<lparr>b_id = 1, b_user_id = 1, b_category = ''Food'', b_amount = 100,
             b_month = ''2025-04'', b_alert_threshold = 0.1\<rparr>"
  let ?usr = "\<lparr>u_id = 1, u_email = ''test@example.com'', u_name = ''Test User''\<rparr>"
  have one: "filter (\<lambda>b. b_user_id b = 1 \<and> b_category b = ''Food''
      \<and> b_month b = strftime_ym april_17) (budgets (spent_store a)) = [?b]" for a
    by (simp add: eval_defs store_defs)
  have amt: "b_amount ?b = 100" and thr: "b_alert_threshold ?b = 0.1" by simp_all
  have usr: "fetchone (filter (\<lambda>x. u_id x = 1) (users (spent_store a))) = Some ?usr" for a
    by (simp add: eval_defs store_defs)
  have t95: "get_monthly_spending 1 ''Food'' (strftime_ym april_17) (spent_store 95) = 95"
    by (simp add: eval_defs store_defs)
  have t105: "get_monthly_spending 1 ''Food'' (strftime_ym april_17) (spent_store 105) = 105"
    by (simp add: eval_defs store_defs)
  have tr: "trace (spent_store a) = []" for a by (simp add: eval_defs store_defs)
  show ?thesis
    using C2_alert_at_95_and_105[OF one amt thr usr, of 95 smtp_down]
      C2_alert_at_95_and_105[OF one amt thr usr, of 105 smtp_down] t95 t105 tr
    by simp
qed

text \<open>
  The claim of C2 as stated fails where no user row has the user id of the budget and
  the expense, which no method of the program excludes: on \<open>orphan_store\<close> the one budget
  row of the key has amount 100 and threshold 0.1, logging 95 brings the spending to 95,
  and \<open>log_expense\<close> ends in the \<open>TypeError\<close> of \<open>send_alert\<close> with no message handed to the
  mail session. It fails as well where the key has two budget rows: on \<open>reset_store\<close>, which
  two calls of \<open>set_budget\<close> produce, a row with amount 100 and threshold 0.1 is there, and
  at a spending of 95 the message sent is the "Budget exceeded" of the older row.
\<close>

theorem C2_alert_counterexample:
  "map (\<lambda>b. (b_amount b, b_alert_threshold b))
      (filter (\<lambda>b. b_user_id b = 7 \<and> b_category b = ''Food'' \<and> b_month b = ''2025-04'')
        (budgets orphan_store)) = [(100, 0.1)]
   \<and> get_monthly_spending 7 ''Food'' ''2025-04''
        (snd (log_expense smtp_down april_17 april_17 7 95 ''Food'' ''Dinner'' None orphan_store)) = 95
   \<and> fst (log_expense smtp_down april_17 april_17 7 95 ''Food'' ''Dinner'' None orphan_store)
        = Inl TypeError
   \<and> alerts (trace (snd (log_expense smtp_down april_17 april_17 7 95 ''Food'' ''Dinner'' None
        orphan_store))) = []
   \<and> map (\<lambda>b. (b_amount b, b_alert_threshold b))
      (filter (\<lambda>b. b_user_id b = 1 \<and> b_category b = ''Food'' \<and> b_month b = ''2025-04'')
        (budgets reset_store)) = [(50, 0.1), (100, 0.1)]
   \<and> get_monthly_spending 1 ''Food'' ''2025-04''
        (snd (log_expense smtp_down april_17 april_17 1 95 ''Food'' ''Dinner'' None reset_store)) = 95
   \<and> alerts (trace (snd (log_expense smtp_down april_17 april_17 1 95 ''Food'' ''Dinner'' None
        reset_store))) =
      [alert_mail ''test@example.com'' ''Budget exceeded'' ''Food'' (Spent 95 50)]"
proof -
  have o: "log_expense smtp_down april_17 april_17 7 95 ''Food'' ''Dinner'' None orphan_store =
      (Inl TypeError, orphan_store\<lparr>expenses :=
         [\<lparr>e_id = 1, e_user_id = 7, e_amount = 95, e_category = ''Food'',
           e_description = ''Dinner'', e_date = ''2025-04-17'', e_shared_with = []\<rparr>]\<rparr>)"
    by (simp add: eval_defs store_defs orphan_store_def)
  have r: "log_expense smtp_down april_17 april_17 1 95 ''Food'' ''Dinner'' None reset_store =
      (Inr (), reset_store\<lparr>expenses :=
         [\<lparr>e_id = 1, e_user_id = 1, e_amount = 95, e_category = ''Food'',
           e_description = ''Dinner'', e_date = ''2025-04-17'', e_shared_with = []\<rparr>],
        trace := [Smtp (alert_mail ''test@example.com'' ''Budget exceeded'' ''Food'' (Spent 95 50)),
           Print ''Failed to send email: Connection refused'']\<rparr>)"
    by (simp add: eval_defs store_defs reset_store_def)
  show ?thesis
    unfolding o r by (simp add: eval_defs store_defs orphan_store_def reset_store_def)
qed

text \<open>
  C3. The claim: if a budget row with amount 0 exists for the user, the category and the
  current month, the check of \<open>log_expense\<close> raises the division fault, and with a nonzero
  amount it does not. On the code the row read is the oldest of the key, and \<open>set_budget\<close>
  replaces none. With user 1 registered and the budget of Food for 2025-04 set to 100 and
  then to 0, a row with amount 0 exists for the key and \<open>log_expense(1, 50.0, "Food",
  "Lunch")\<close> in April 2025 returns normally. With the budget set to 0 and then to 100,
  the same call ends in \<open>ZeroDivisionError\<close>.
\<close>

theorem C3_zero_budget_row_not_read:
  "map b_amount
      (filter (\<lambda>b. b_user_id b = 1 \<and> b_category b = ''Food'' \<and> b_month b = ''2025-04'')
        (budgets (set_budget 1 ''Food'' 0 ''2025-04'' 0.1
                   (set_budget 1 ''Food'' 100 ''2025-04'' 0.1 test_store)))) = [100, 0]
   \<and> fst (log_expense smtp_down april_17 april_17 1 50 ''Food'' ''Lunch'' None
        (set_budget 1 ''Food'' 0 ''2025-04'' 0.1
          (set_budget 1 ''Food'' 100 ''2025-04'' 0.1 test_store))) = Inr ()
   \<and> map b_amount
      (filter (\<lambda>b. b_user_id b = 1 \<and> b_category b = ''Food'' \<and> b_month b = ''2025-04'')
        (budgets (set_budget 1 ''Food'' 100 ''2025-04'' 0.1
                   (set_budget 1 ''Food'' 0 ''2025-04'' 0.1 test_store)))) = [0, 100]
   \<and> fst (log_expense smtp_down april_17 april_17 1 50 ''Food'' ''Lunch'' None
        (set_budget 1 ''Food'' 100 ''2025-04'' 0.1
          (set_budget 1 ''Food'' 0 ''2025-04'' 0.1 test_store))) = Inl ZeroDivisionError"
  by (simp add: eval_defs store_defs)



text \<open>
  C7. The report has one line for each category in the union of the categories of the
  matched expenses and the categories of the user's budgets for the month, and no other
  line. On each line the status is "Under" exactly when spent \<open>\<le>\<close> budget or the budget is
  0, and "Over" otherwise; the amount spent is the monthly spending of the category; the
  budget shown is 0 when no budget row exists for the category, and the amount of one of
  its budget rows otherwise.
\<close>

theorem C7_report_lines:
  "distinct (map r_category (snd (generate_report u m s)))
   \<and> set (map r_category (snd (generate_report u m s))) =
       e_category ` {e \<in> set (expenses s). e_user_id e = u \<and> like (m @ ''%'') (e_date e)}
       \<union> b_category ` {b \<in> set (budgets s). b_user_id b = u \<and> b_month b = m}
   \<and> (\<forall>r \<in> set (snd (generate_report u m s)).
        (r_status r = ''Under'' \<longleftrightarrow> r_spent r \<le> r_budget r \<or> r_budget r = 0)
      \<and> (r_status r = ''Over'' \<longleftrightarrow> \<not> (r_spent r \<le> r_budget r \<or> r_budget r = 0))
      \<and> r_spent r = get_monthly_spending u (r_category r) m s
      \<and> ((\<forall>b \<in> set (budgets s).
             \<not> (b_user_id b = u \<and> b_category b = r_category r \<and> b_month b = m))
           \<longrightarrow> r_budget r = 0)
      \<and> ((\<exists>b \<in> set (budgets s).
             b_user_id b = u \<and> b_category b = r_category r \<and> b_month b = m)
           \<longrightarrow> (\<exists>b \<in> set (budgets s). b_user_id b = u \<and> b_category b = r_category r
                  \<and> b_month b = m \<and> r_budget r = b_amount b)))"
proof (intro conjI ballI)
  show "distinct (map r_category (snd (generate_report u m s)))" by (rule report_distinct)
  show "set (map r_category (snd (generate_report u m s))) =
       e_category ` {e \<in> set (expenses s). e_user_id e = u \<and> like (m @ ''%'') (e_date e)}
       \<union> b_category ` {b \<in> set (budgets s). b_user_id b = u \<and> b_month b = m}"
    using report_set[of u m s] unfolding report_categories_def .
next
  fix r assume r: "r \<in> set (snd (generate_report u m s))"
  let ?B = "map (\<lambda>b. (b_category b, b_amount b))
              (filter (\<lambda>b. b_user_id b = u \<and> b_month b = m) (budgets s))"
  have st: "r_status r = (if r_spent r \<le> r_budget r \<or> r_budget r = 0 then ''Under'' else ''Over'')"
    and bu: "r_budget r = (case dict ?B (r_category r) of None \<Rightarrow> 0 | Some v \<Rightarrow> v)"
    and sp: "r_spent r = sum_list (map e_amount (filter (\<lambda>e. e_category e = r_category r)
            (filter (\<lambda>e. e_user_id e = u \<and> like (m @ ''%'') (e_date e)) (expenses s))))"
    using report_line[OF r] by simp_all
  show "r_status r = ''Under'' \<longleftrightarrow> r_spent r \<le> r_budget r \<or> r_budget r = 0"
    unfolding st by simp
  show "r_status r = ''Over'' \<longleftrightarrow> \<not> (r_spent r \<le> r_budget r \<or> r_budget r = 0)"
    unfolding st by simp
  have "filter (\<lambda>e. e_category e = r_category r)
          (filter (\<lambda>e. e_user_id e = u \<and> like (m @ ''%'') (e_date e)) (expenses s)) =
        filter (\<lambda>e. e_user_id e = u \<and> e_category e = r_category r
          \<and> like (m @ ''%'') (e_date e)) (expenses s)"
    unfolding filter_filter by (rule filter_cong) auto
  then show "r_spent r = get_monthly_spending u (r_category r) m s"
    unfolding sp get_monthly_spending_sum by simp
  show "(\<forall>b \<in> set (budgets s).
             \<not> (b_user_id b = u \<and> b_category b = r_category r \<and> b_month b = m))
           \<longrightarrow> r_budget r = 0"
  proof
    assume none: "\<forall>b \<in> set (budgets s).
             \<not> (b_user_id b = u \<and> b_category b = r_category r \<and> b_month b = m)"
    have "r_category r \<notin> fst ` set ?B" using none by auto
    then have "dict ?B (r_category r) = None" using dict_None[of ?B "r_category r"] by blast
    then show "r_budget r = 0" unfolding bu by simp
  qed
  show "(\<exists>b \<in> set (budgets s).
             b_user_id b = u \<and> b_category b = r_category r \<and> b_month b = m)
           \<longrightarrow> (\<exists>b \<in> set (budgets s). b_user_id b = u \<and> b_category b = r_category r
                  \<and> b_month b = m \<and> r_budget r = b_amount b)"
  proof
    assume "\<exists>b \<in> set (budgets s).
             b_user_id b = u \<and> b_category b = r_category r \<and> b_month b = m"
    then have "r_category r \<in> fst ` set ?B" by force
    then obtain v where v: "dict ?B (r_category r) = Some v"
      using dict_None[of ?B "r_category r"] by (cases "dict ?B (r_category r)") auto
    have "(r_category r, v) \<in> set ?B" using dict_SomeD[OF v] .
    then obtain b where "b \<in> set (budgets s)" "b_user_id b = u" "b_month b = m"
        "b_category b = r_category r" "b_amount b = v"
      by auto
    then show "\<exists>b \<in> set (budgets s). b_user_id b = u \<and> b_category b = r_category r
                  \<and> b_month b = m \<and> r_budget r = b_amount b"
      unfolding bu v by auto
  qed
qed

theorem C7_report_lines_witness:
  "snd (generate_report 1 ''2025-04'' report_store) =
     [\<lparr>r_category = ''Food'', r_spent = 95, r_budget = 100, r_status = ''Under''\<rparr>,
      \<lparr>r_category = ''Transit'', r_spent = 0, r_budget = 50, r_status = ''Under''\<rparr>,
      \<lparr>r_category = ''Fun'', r_spent = 30, r_budget = 20, r_status = ''Over''\<rparr>,
      \<lparr>r_category = ''Gifts'', r_spent = 10, r_budget = 0, r_status = ''Under''\<rparr>]
   \<and> distinct (map r_category (snd (generate_report 1 ''2025-04'' report_store)))"
proof -
  have run: "snd (generate_report 1 ''2025-04'' report_store) =
     [\<lparr>r_category = ''Food'', r_spent = 95, r_budget = 100, r_status = ''Under''\<rparr>,
      \<lparr>r_category = ''Transit'', r_spent = 0, r_budget = 50, r_status = ''Under''\<rparr>,
      \<lparr>r_category = ''Fun'', r_spent = 30, r_budget = 20, r_status = ''Over''\<rparr>,
      \<lparr>r_category = ''Gifts'', r_spent = 10, r_budget = 0, r_status = ''Under''\<rparr>]"
    by (simp add: generate_report_def group_by_category_def dict_def report_store_def eval_defs store_defs)
  have d: "distinct (map r_category (snd (generate_report 1 ''2025-04'' report_store)))"
    using C7_report_lines[of 1 "''2025-04''" report_store] by (rule conjunct1)
  show ?thesis using run d by blast
qed

text \<open>
  C10. The claim: the month is matched as a prefix of the date, every expense whose date
  starts with \<open>m\<close> is counted, and only a well-formed key restricts the sum to one calendar
  month. What holds on the code: \<open>get_monthly_spending\<close> sums the expenses of the user and
  the category whose date matches \<open>LIKE\<close> against \<open>m\<close> followed by \<open>%\<close>, and each line of
  the report shows that sum for its category; every date that starts with \<open>m\<close> matches,
  and for the empty \<open>m\<close> every date matches; for a well-formed key the match is the prefix
  test, so that a date written by \<open>strftime\<close> matches exactly when its year and month are
  those of the key, and two valid dates that match are of the same calendar month.
\<close>

theorem C10_month_matched_by_like:
  "get_monthly_spending u c m s =
      sum_list (map e_amount (filter (\<lambda>e. e_user_id e = u \<and> e_category e = c
         \<and> like (m @ ''%'') (e_date e)) (expenses s)))
   \<and> (\<forall>r \<in> set (snd (generate_report u m s)).
         r_spent r = get_monthly_spending u (r_category r) m s)
   \<and> (prefix m t \<longrightarrow> like (m @ ''%'') t)
   \<and> like ([] @ ''%'') t
   \<and> (wf_month_key m \<longrightarrow> like (m @ ''%'') t = prefix m t)
   \<and> (wf_month_key m \<longrightarrow> like (m @ ''%'') (strftime_ymd d) = (strftime_ym d = m))
   \<and> (wf_month_key m \<and> valid_date d \<and> valid_date d'
         \<and> like (m @ ''%'') (strftime_ymd d) \<and> like (m @ ''%'') (strftime_ymd d')
       \<longrightarrow> d_year d = d_year d' \<and> d_month d = d_month d')"
proof (intro conjI ballI impI)
  show "get_monthly_spending u c m s =
      sum_list (map e_amount (filter (\<lambda>e. e_user_id e = u \<and> e_category e = c
         \<and> like (m @ ''%'') (e_date e)) (expenses s)))"
    by (rule get_monthly_spending_sum)
  show "r_spent r = get_monthly_spending u (r_category r) m s"
    if "r \<in> set (snd (generate_report u m s))" for r
    using that by (rule report_line_spent)
  show "like (m @ ''%'') t" if "prefix m t" using that by (rule like_prefix)
  show "like ([] @ ''%'') t" using like_percent_all by simp
  show "like (m @ ''%'') t = prefix m t" if "wf_month_key m" using that by (rule like_wf_key)
  show "like (m @ ''%'') (strftime_ymd d) = (strftime_ym d = m)" if "wf_month_key m"
    using that by (rule like_wf_key_date)
next
  assume a: "wf_month_key m \<and> valid_date d \<and> valid_date d'
         \<and> like (m @ ''%'') (strftime_ymd d) \<and> like (m @ ''%'') (strftime_ymd d')"
  then have "strftime_ym d = m" "strftime_ym d' = m" using like_wf_key_date by blast+
  then have e: "strftime_ym d = strftime_ym d'" by simp
  have "d_year d = d_year d' \<and> d_month d = d_month d'"
    using strftime_ym_inj[OF _ _ e] a by blast
  then show "d_year d = d_year d'" and "d_month d = d_month d'" by simp_all
qed

theorem C10_month_matched_by_like_witness:
  "get_monthly_spending 1 ''Food'' ''2025-1'' year_store = 700
   \<and> get_monthly_spending 1 ''Food'' [] year_store = 1775
   \<and> get_monthly_spending 1 ''Food'' ''2025-04'' year_store = 30
   \<and> wf_month_key ''2025-04''"
proof -
  have w: "wf_month_key ''2025-04''" by (simp add: wf_month_key_def is_digit_def)
  have a: "get_monthly_spending 1 ''Food'' ''2025-1'' year_store = 700"
    by (simp add: like_eval)
  have b: "get_monthly_spending 1 ''Food'' [] year_store = 1775"
    by (simp add: like_eval)
  have c: "get_monthly_spending 1 ''Food'' ''2025-04'' year_store = 30"
    by (simp add: like_eval)
  have "like (''2025-04'' @ ''%'') ''2025-04-17'' = prefix ''2025-04'' ''2025-04-17''"
    using C10_month_matched_by_like[of 1 "''Food''" "''2025-04''" year_store "''2025-04-17''"] w
    by blast
  then show ?thesis using a b c w by blast
qed

text \<open>
  The claim of C10 as stated fails on two counts. The argument \<open>2025-04-\<close> is not a
  well-formed key, and it restricts the sum to April 2025 as \<open>2025-04\<close> does. The argument
  \<open>2025_04\<close> is no prefix of the date \<open>2025-04-17\<close>, and the expense of that date is counted,
  since \<open>_\<close> in the pattern of a \<open>LIKE\<close> matches any character.
\<close>

theorem C10_only_wf_key_counterexample:
  "\<not> wf_month_key ''2025-04-''
   \<and> get_monthly_spending 1 ''Food'' ''2025-04-'' year_store = 30
   \<and> get_monthly_spending 1 ''Food'' ''2025-04'' year_store = 30
   \<and> \<not> wf_month_key ''2025_04''
   \<and> \<not> prefix ''2025_04'' ''2025-04-17''
   \<and> like (''2025_04'' @ ''%'') ''2025-04-17''
   \<and> get_monthly_spending 1 ''Food'' ''2025_04'' year_store = 30"
proof -
  have 1: "\<not> wf_month_key ''2025-04-''" by (simp add: wf_month_key_def)
  have 2: "get_monthly_spending 1 ''Food'' ''2025-04-'' year_store = 30"
    by (simp add: like_eval)
  have 3: "get_monthly_spending 1 ''Food'' ''2025-04'' year_store = 30"
    by (simp add: like_eval)
  have 4: "\<not> wf_month_key ''2025_04''" by (simp add: wf_month_key_def is_digit_def)
  have 5: "\<not> prefix ''2025_04'' ''2025-04-17''" by simp
  have 6: "like (''2025_04'' @ ''%'') ''2025-04-17''" by (simp add: lower_def)
  have 7: "get_monthly_spending 1 ''Food'' ''2025_04'' year_store = 30"
    by (simp add: like_eval)
  show ?thesis using 1 2 3 4 5 6 7 by blast
qed

end
